theory Spec2Isabelle
  imports Complex_Main
begin

section \<open>Data frames\<close>

text \<open>
  The notebook works on pandas data frames. A frame is modelled by its column names and
  its rows; every row carries its index label and one cell per column. A cell is either
  a value or null (\<open>NaN\<close>), written \<open>None\<close>. The operations below look only at
  whether a cell is null, never at the value inside, so the type of values is a parameter.
\<close>

type_synonym 'v cell = "'v option"

record 'v frame =
  columns :: "string list"
  rows :: "(nat \<times> 'v cell list) list"

datatype error = KeyError | ValueError

text \<open>The cell of row \<open>r\<close> in the column named \<open>n\<close>.\<close>

definition cell_at :: "string list \<Rightarrow> 'v cell list \<Rightarrow> string \<Rightarrow> 'v cell" where
  "cell_at cols r n = (case map_of (zip cols r) n of None \<Rightarrow> None | Some c \<Rightarrow> c)"

text \<open>\<^verbatim>\<open>df[[n1, ..., nk]]\<close>: the named columns, in the order asked for; a name that is
  not a column raises \<^verbatim>\<open>KeyError\<close>.\<close>

definition getitem :: "'v frame \<Rightarrow> string list \<Rightarrow> error + 'v frame" where
  "getitem df names =
     (if list_all (\<lambda>n. n \<in> set (columns df)) names
      then Inr \<lparr>columns = names,
                rows = map (\<lambda>(i, r). (i, map (cell_at (columns df) r) names)) (rows df)\<rparr>
      else Inl KeyError)"

text \<open>\<^verbatim>\<open>fillna(method='ffill')\<close>: going down the rows, a null cell takes the last
  non-null value seen above it in its own column; each column is filled on its own, and a
  null with nothing valid above it stays null.\<close>

definition fill_row :: "'v cell list \<Rightarrow> 'v cell list \<Rightarrow> 'v cell list" where
  "fill_row prev r = map (\<lambda>(p, c). case c of None \<Rightarrow> p | Some v \<Rightarrow> Some v) (zip prev r)"

fun ffill :: "'v cell list \<Rightarrow> 'v cell list list \<Rightarrow> 'v cell list list" where
  "ffill prev [] = []"
| "ffill prev (r # rs) = fill_row prev r # ffill (fill_row prev r) rs"

definition fillna_ffill :: "'v frame \<Rightarrow> 'v frame" where
  "fillna_ffill df =
     df\<lparr>rows := zip (map fst (rows df))
                     (ffill (replicate (length (columns df)) None) (map snd (rows df)))\<rparr>"

text \<open>\<^verbatim>\<open>left.join(right)\<close>: a left join on the index labels. Every row of \<open>left\<close>
  is extended by the cells of each row of \<open>right\<close> with the same label, or by nulls when
  there is none. Column names that occur on both sides raise \<^verbatim>\<open>ValueError\<close>, since
  no suffix is given.\<close>

definition join :: "'v frame \<Rightarrow> 'v frame \<Rightarrow> error + 'v frame" where
  "join left right =
     (if list_ex (\<lambda>n. n \<in> set (columns right)) (columns left) then Inl ValueError
      else Inr \<lparr>columns = columns left @ columns right,
                rows = concat (map (\<lambda>(i, a).
                         case filter (\<lambda>(j, b). j = i) (rows right) of
                           [] \<Rightarrow> [(i, a @ replicate (length (columns right)) None)]
                         | ms \<Rightarrow> map (\<lambda>(j, b). (i, a @ b)) ms) (rows left))\<rparr>)"

text \<open>\<^verbatim>\<open>dropna()\<close>: only the rows without any null cell stay, with their labels.\<close>

definition dropna :: "'v frame \<Rightarrow> 'v frame" where
  "dropna df = df\<lparr>rows := filter (\<lambda>(i, r). list_all (\<lambda>c. c \<noteq> None) r) (rows df)\<rparr>"

section \<open>The Git log table\<close>

text \<open>
  One parsed line of the log: the seven tab-separated fields in the order of the
  \<^verbatim>\<open>names\<close> passed to \<^verbatim>\<open>read_csv\<close>; an empty field is null.
\<close>

record 'v line =
  additions :: "'v cell"
  deletions :: "'v cell"
  filename :: "'v cell"
  sha :: "'v cell"
  timestamp :: "'v cell"
  author :: "'v cell"
  message :: "'v cell"

definition stat_names :: "string list" where
  "stat_names = [''additions'', ''deletions'', ''filename'']"

definition meta_names :: "string list" where
  "meta_names = [''sha'', ''timestamp'', ''author'', ''message'']"

definition stat_cells :: "'v line \<Rightarrow> 'v cell list" where
  "stat_cells l = [additions l, deletions l, filename l]"

definition meta_cells :: "'v line \<Rightarrow> 'v cell list" where
  "meta_cells l = [sha l, timestamp l, author l, message l]"

text \<open>\<^verbatim>\<open>commits_raw\<close>: the frame \<^verbatim>\<open>read_csv\<close> builds with \<^verbatim>\<open>header=None\<close> and the
  seven \<^verbatim>\<open>names\<close>: one row per line, labelled \<open>0, 1, 2, ...\<close>.\<close>

definition commits_raw :: "'v line list \<Rightarrow> 'v frame" where
  "commits_raw ls =
     \<lparr>columns = stat_names @ meta_names,
      rows = enumerate 0 (map (\<lambda>l. stat_cells l @ meta_cells l) ls)\<rparr>"

text \<open>The forward-fill join of the notebook:
  \<^verbatim>\<open>commits_raw[['additions', 'deletions', 'filename']]
      .join(commits_raw[['sha', 'timestamp', 'author', 'message']].fillna(method='ffill'))\<close>\<close>

definition commits :: "'v frame \<Rightarrow> error + 'v frame" where
  "commits raw =
     (case getitem raw stat_names of
        Inl e \<Rightarrow> Inl e
      | Inr stats \<Rightarrow>
         (case getitem raw meta_names of
            Inl e \<Rightarrow> Inl e
          | Inr meta \<Rightarrow> join stats (fillna_ffill meta)))"

text \<open>The whole reconciliation: the join above, then \<^verbatim>\<open>commits.dropna()\<close>.\<close>

definition reconcile :: "'v frame \<Rightarrow> error + 'v frame" where
  "reconcile raw = (case commits raw of Inl e \<Rightarrow> Inl e | Inr c \<Rightarrow> Inr (dropna c))"

section \<open>Line shapes\<close>

text \<open>
  The log is exported with \<^verbatim>\<open>--numstat\<close> and a format string that puts three empty
  fields in front of the commit's data, so the table has two kinds of rows: the commit
  meta data without file statistics, and the file statistics without the commit meta
  data.
\<close>

definition is_metadata :: "'v line \<Rightarrow> bool" where
  "is_metadata l \<longleftrightarrow>
     sha l \<noteq> None \<and> timestamp l \<noteq> None \<and> author l \<noteq> None \<and> message l \<noteq> None \<and>
     additions l = None \<and> deletions l = None \<and> filename l = None"

definition is_statistic :: "'v line \<Rightarrow> bool" where
  "is_statistic l \<longleftrightarrow>
     additions l \<noteq> None \<and> deletions l \<noteq> None \<and> filename l \<noteq> None \<and>
     sha l = None \<and> timestamp l = None \<and> author l = None \<and> message l = None"

text \<open>A line without any commit meta data.\<close>

definition no_metadata :: "'v line \<Rightarrow> bool" where
  "no_metadata l \<longleftrightarrow> sha l = None \<and> timestamp l = None \<and> author l = None \<and> message l = None"

text \<open>Values for concrete logs, with the representation pandas gives them: an integer
  (\<^verbatim>\<open>int64\<close>), a floating-point number (\<^verbatim>\<open>float64\<close>) or text.\<close>

datatype val = Num int | Flt real | Str string

definition metadata_line :: "val \<Rightarrow> val \<Rightarrow> val \<Rightarrow> val \<Rightarrow> val line" where
  "metadata_line h t a s =
     \<lparr>additions = None, deletions = None, filename = None,
      sha = Some h, timestamp = Some t, author = Some a, message = Some s\<rparr>"

definition statistic_line :: "val \<Rightarrow> val \<Rightarrow> val \<Rightarrow> val line" where
  "statistic_line a d f =
     \<lparr>additions = Some a, deletions = Some d, filename = Some f,
      sha = None, timestamp = None, author = None, message = None\<rparr>"

text \<open>Two logs with incomplete commit lines. In the first, one commit line has no
  author and the next one no message; in the second, the second commit has no message.\<close>

definition log_without_author_then_message :: "val line list" where
  "log_without_author_then_message =
     [(metadata_line (Num 1) (Num 100) (Str ''A'') (Str ''x''))\<lparr>author := None\<rparr>,
      statistic_line (Num 2) (Num 1) (Str ''f.txt''),
      (metadata_line (Num 2) (Num 200) (Str ''B'') (Str ''y''))\<lparr>message := None\<rparr>,
      statistic_line (Num 5) (Num 0) (Str ''g.txt'')]"

definition log_without_message :: "val line list" where
  "log_without_message =
     [metadata_line (Str ''101c9dc'') (Num 1498817227) (Str ''Dave Syer'') (Str ''Update Spring Boot''),
      (metadata_line (Str ''ffa967c'') (Num 1492026060) (Str ''Antoine Rey'') (Str ''wip''))\<lparr>message := None\<rparr>,
      statistic_line (Num 1) (Num 1) (Str ''readme.md'')]"

text \<open>A log where two incomplete commit lines come before a statistic line and the
  first complete commit line, and a log where a line with only a commit id follows a run
  of two commit lines.\<close>

definition log_statistic_before_first_metadata :: "val line list" where
  "log_statistic_before_first_metadata =
     [(metadata_line (Num 1) (Num 100) (Str ''A'') (Str ''x''))\<lparr>author := None\<rparr>,
      (metadata_line (Num 2) (Num 200) (Str ''B'') (Str ''y''))\<lparr>message := None\<rparr>,
      statistic_line (Num 2) (Num 1) (Str ''f.txt''),
      metadata_line (Num 3) (Num 300) (Str ''C'') (Str ''z''),
      statistic_line (Num 5) (Num 0) (Str ''g.txt'')]"

definition log_with_sha_only_line :: "val line list" where
  "log_with_sha_only_line =
     [metadata_line (Num 1) (Num 100) (Str ''A'') (Str ''x''),
      metadata_line (Num 2) (Num 200) (Str ''B'') (Str ''y''),
      \<lparr>additions = None, deletions = None, filename = None,
       sha = Some (Num 9), timestamp = None, author = None, message = None\<rparr>,
      statistic_line (Num 5) (Num 0) (Str ''g.txt'')]"

text \<open>
  The types \<^verbatim>\<open>read_csv\<close> gives a column whose non-empty fields are all integers, as
  the timestamp column of the log is: the column is \<^verbatim>\<open>int64\<close> when no field is empty,
  and \<^verbatim>\<open>float64\<close> as soon as one field is empty, since the null is the floating-point
  \<^verbatim>\<open>NaN\<close>. The notebook's printed tables show both: \<^verbatim>\<open>1498817227\<close> in the table of
  commit lines only, \<^verbatim>\<open>1.498817e+09\<close> in the table with the statistic lines. An
  integer of magnitude up to \<open>2 ^ 53\<close> is a \<^verbatim>\<open>float64\<close> exactly; what the library does
  with a wider one is not modelled and is the parameter \<open>wide\<close>.
\<close>

definition numeric_column :: "(int option list \<Rightarrow> val cell list) \<Rightarrow> int option list \<Rightarrow> val cell list" where
  "numeric_column wide xs =
     (if list_ex (\<lambda>x. case x of None \<Rightarrow> False | Some t \<Rightarrow> 2 ^ 53 < \<bar>t\<bar>) xs then wide xs
      else if None \<in> set xs then map (map_option (\<lambda>t. Flt (of_int t))) xs
      else map (map_option Num) xs)"

text \<open>The first commit of the notebook's log with one changed file, as \<^verbatim>\<open>read_csv\<close>
  holds it: the counts are text, the timestamp is a \<^verbatim>\<open>float64\<close>.\<close>

definition log_as_read :: "val line list" where
  "log_as_read =
     [metadata_line (Str ''101c9dc'') (Flt 1498817227) (Str ''Dave Syer'')
        (Str ''Update Spring Boot and Thymeleaf versions''),
      statistic_line (Str ''2'') (Str ''3'') (Str ''pom.xml'')]"

text \<open>The four meta data columns, each with the field of a line it holds.\<close>

definition meta_fields :: "(string \<times> ('v line \<Rightarrow> 'v cell)) list" where
  "meta_fields =
     [(''sha'', sha), (''timestamp'', timestamp), (''author'', author), (''message'', message)]"

section \<open>The reconciliation as one pass over the lines\<close>

text \<open>
  The same computation written as a single loop: \<open>prev\<close> holds the last non-null value
  of each meta data column, \<open>k\<close> is the label of the next line, and a line is emitted
  when its joined row has no null. The lemma \<open>reconcile_scan\<close> below shows that the
  notebook's pipeline computes exactly this.
\<close>

fun scan :: "'v cell list \<Rightarrow> nat \<Rightarrow> 'v line list \<Rightarrow> (nat \<times> 'v cell list) list" where
  "scan prev k [] = []"
| "scan prev k (l # ls) =
     (let m = fill_row prev (meta_cells l); r = stat_cells l @ m
      in (if list_all (\<lambda>c. c \<noteq> None) r then [(k, r)] else []) @ scan m (Suc k) ls)"

text \<open>The meta data cells carried after the lines \<open>ls\<close>, and the joined row of line \<open>n\<close>.\<close>

definition carried :: "'v cell list \<Rightarrow> 'v line list \<Rightarrow> 'v cell list" where
  "carried prev ls = foldl (\<lambda>p l. fill_row p (meta_cells l)) prev ls"

definition joined :: "'v cell list \<Rightarrow> 'v line list \<Rightarrow> nat \<Rightarrow> 'v cell list" where
  "joined prev ls n = stat_cells (ls ! n) @ carried prev (take (Suc n) ls)"

section \<open>The pipeline on the Git log table\<close>

lemma map_enumerate: "map (\<lambda>(i, r). (i, f r)) (enumerate k xs) = enumerate k (map f xs)"
  by (induction xs arbitrary: k) auto

lemma stat_of_cells: "map (cell_at (stat_names @ meta_names) (stat_cells l @ meta_cells l)) stat_names = stat_cells l"
  by (simp add: cell_at_def stat_names_def meta_names_def stat_cells_def meta_cells_def)

lemma meta_of_cells: "map (cell_at (stat_names @ meta_names) (stat_cells l @ meta_cells l)) meta_names = meta_cells l"
  by (simp add: cell_at_def stat_names_def meta_names_def stat_cells_def meta_cells_def)

lemma getitem_stat:
  "getitem (commits_raw ls) stat_names = Inr \<lparr>columns = stat_names, rows = enumerate 0 (map stat_cells ls)\<rparr>"
proof -
  have "list_all (\<lambda>n. n \<in> set (stat_names @ meta_names)) stat_names"
    by (simp add: list_all_iff)
  moreover have "map (\<lambda>(i, r). (i, map (cell_at (stat_names @ meta_names) r) stat_names))
          (enumerate 0 (map (\<lambda>l. stat_cells l @ meta_cells l) ls)) = enumerate 0 (map stat_cells ls)"
    by (simp add: map_enumerate stat_of_cells comp_def)
  ultimately show ?thesis
    by (simp add: getitem_def commits_raw_def)
qed

lemma getitem_meta:
  "getitem (commits_raw ls) meta_names = Inr \<lparr>columns = meta_names, rows = enumerate 0 (map meta_cells ls)\<rparr>"
proof -
  have "list_all (\<lambda>n. n \<in> set (stat_names @ meta_names)) meta_names"
    by (simp add: list_all_iff)
  moreover have "map (\<lambda>(i, r). (i, map (cell_at (stat_names @ meta_names) r) meta_names))
          (enumerate 0 (map (\<lambda>l. stat_cells l @ meta_cells l) ls)) = enumerate 0 (map meta_cells ls)"
    by (simp add: map_enumerate meta_of_cells comp_def)
  ultimately show ?thesis
    by (simp add: getitem_def commits_raw_def)
qed

lemma length_ffill: "length (ffill prev rs) = length rs"
  by (induction rs arbitrary: prev) auto

lemma fillna_ffill_meta:
  "fillna_ffill \<lparr>columns = meta_names, rows = enumerate 0 (map meta_cells ls)\<rparr>
     = \<lparr>columns = meta_names, rows = enumerate 0 (ffill (replicate 4 None) (map meta_cells ls))\<rparr>"
  by (simp add: fillna_ffill_def enumerate_eq_zip length_ffill meta_names_def eval_nat_numeral)

lemma filter_label_enumerate:
  "k \<le> i \<Longrightarrow> i < k + length B \<Longrightarrow> filter (\<lambda>(j, b). j = i) (enumerate k B) = [(i, B ! (i - k))]"
proof (induction B arbitrary: k)
  case Nil
  then show ?case by simp
next
  case (Cons b B)
  show ?case
  proof (cases "i = k")
    case True
    have "filter (\<lambda>(j, b). j = i) (enumerate (Suc k) B) = []"
      using True by (auto simp: filter_empty_conv in_set_enumerate_eq)
    with True show ?thesis by simp
  next
    case False
    with Cons.prems have "Suc k \<le> i" "i < Suc k + length B" by auto
    from Cons.IH[OF this] False Cons.prems show ?thesis
      by (simp add: nth_Cons')
  qed
qed

lemma join_enumerate:
  assumes "rows L = enumerate 0 A" "rows R = enumerate 0 B" "length A = length B"
    and "\<not> list_ex (\<lambda>n. n \<in> set (columns R)) (columns L)"
  shows "join L R
     = Inr \<lparr>columns = columns L @ columns R, rows = enumerate 0 (map (\<lambda>(a, b). a @ b) (zip A B))\<rparr>"
proof -
  let ?f = "\<lambda>(i, a). case filter (\<lambda>(j, b). j = i) (enumerate 0 B) of
                           [] \<Rightarrow> [(i, a @ replicate (length (columns R)) None)]
                         | ms \<Rightarrow> map (\<lambda>(j, b). (i, a @ b)) ms"
  have one: "?f x = [(fst x, snd x @ B ! fst x)]" if "x \<in> set (enumerate 0 A)" for x
  proof -
    from that have "fst x < length B" using assms(3) by (auto simp: in_set_enumerate_eq)
    then have "filter (\<lambda>(j, b). j = fst x) (enumerate 0 B) = [(fst x, B ! fst x)]"
      using filter_label_enumerate[of 0 "fst x" B] by simp
    then show ?thesis by (simp add: case_prod_beta)
  qed
  have "concat (map ?f (enumerate 0 A)) = concat (map (\<lambda>x. [(fst x, snd x @ B ! fst x)]) (enumerate 0 A))"
    using one by (intro arg_cong[where f = concat] map_cong) auto
  also have "\<dots> = map (\<lambda>x. (fst x, snd x @ B ! fst x)) (enumerate 0 A)"
    by (induction "enumerate 0 A") auto
  also have "\<dots> = enumerate 0 (map (\<lambda>(a, b). a @ b) (zip A B))"
    using assms(3) by (auto simp: list_eq_iff_nth_eq nth_enumerate_eq)
  finally show ?thesis using assms(1,2,4) by (simp add: join_def)
qed

lemma dropna_scan:
  "filter (\<lambda>(i, r). list_all (\<lambda>c. c \<noteq> None) r)
     (enumerate k (map (\<lambda>(a, b). a @ b) (zip (map stat_cells ls) (ffill prev (map meta_cells ls)))))
   = scan prev k ls"
  by (induction ls arbitrary: prev k) (auto simp: Let_def simp del: not_None_eq)

lemma commits_joined:
  "commits (commits_raw ls) = Inr \<lparr>columns = stat_names @ meta_names,
      rows = enumerate 0 (map (\<lambda>(a, b). a @ b)
               (zip (map stat_cells ls) (ffill (replicate 4 None) (map meta_cells ls))))\<rparr>"
proof -
  have "\<not> list_ex (\<lambda>n. n \<in> set meta_names) stat_names"
    by (simp add: stat_names_def meta_names_def)
  then show ?thesis
    by (simp add: commits_def getitem_stat getitem_meta fillna_ffill_meta length_ffill
        join_enumerate[where A = "map stat_cells ls" and B = "ffill (replicate 4 None) (map meta_cells ls)"])
qed

lemma reconcile_scan:
  "reconcile (commits_raw ls) = Inr \<lparr>columns = stat_names @ meta_names, rows = scan (replicate 4 None) 0 ls\<rparr>"
  by (simp add: reconcile_def commits_joined dropna_def dropna_scan del: not_None_eq)

text \<open>The definitions that evaluate the pipeline on a concrete log.\<close>

lemmas pipeline_defs = reconcile_def commits_def commits_raw_def getitem_def fillna_ffill_def join_def
        dropna_def fill_row_def cell_at_def stat_names_def meta_names_def stat_cells_def
        meta_cells_def metadata_line_def statistic_line_def

section \<open>Properties of the pass\<close>

lemma len4: "length (p :: 'a list) = 4 \<Longrightarrow> \<exists>a b c d. p = [a, b, c, d]"
  by (auto simp: eval_nat_numeral length_Suc_conv)

lemma fill_row_meta: "length prev = 4 \<Longrightarrow> is_metadata l \<Longrightarrow> fill_row prev (meta_cells l) = meta_cells l"
  by (auto dest!: len4 simp: fill_row_def meta_cells_def is_metadata_def)

lemma fill_row_stat: "length prev = 4 \<Longrightarrow> is_statistic l \<Longrightarrow> fill_row prev (meta_cells l) = prev"
  by (auto dest!: len4 simp: fill_row_def meta_cells_def is_statistic_def)

lemma length_fill_row: "length prev = 4 \<Longrightarrow> length (fill_row prev (meta_cells l)) = 4"
  by (simp add: fill_row_def meta_cells_def)

lemma fill_row_nth:
  "length prev = 4 \<Longrightarrow> c < 4 \<Longrightarrow>
   fill_row prev (meta_cells l) ! c = (case meta_cells l ! c of None \<Rightarrow> prev ! c | Some v \<Rightarrow> Some v)"
  by (simp add: fill_row_def meta_cells_def)

lemma length_carried: "length prev = 4 \<Longrightarrow> length (carried prev ls) = 4"
  by (induction ls arbitrary: prev) (simp_all add: carried_def length_fill_row)

lemma carried_Nil: "carried prev [] = prev"
  by (simp add: carried_def)

lemma carried_Cons: "carried prev (l # ls) = carried (fill_row prev (meta_cells l)) ls"
  by (simp add: carried_def)

lemma carried_snoc: "carried prev (xs @ [l]) = fill_row (carried prev xs) (meta_cells l)"
  by (simp add: carried_def)

lemma carried_stats: "length prev = 4 \<Longrightarrow> \<forall>l\<in>set ls. is_statistic l \<Longrightarrow> carried prev ls = prev"
  by (induction ls arbitrary: prev) (simp_all add: carried_Nil carried_Cons fill_row_stat)

lemma carried_metadata_last: "length prev = 4 \<Longrightarrow> is_metadata m \<Longrightarrow> carried prev (xs @ [m]) = meta_cells m"
  by (simp add: carried_snoc fill_row_meta length_carried)


lemma scan_append:
  "scan prev k (xs @ ys) = scan prev k xs @ scan (carried prev xs) (k + length xs) ys"
  by (induction xs arbitrary: prev k) (simp_all add: carried_Nil carried_Cons Let_def del: not_None_eq)

lemma scan_shift: "scan prev (k + n) ls = map (\<lambda>(i, r). (i + n, r)) (scan prev k ls)"
proof (induction ls arbitrary: prev k)
  case Nil
  show ?case by simp
next
  case (Cons l ls)
  from Cons[of _ "Suc k"] show ?case by (simp add: Let_def del: not_None_eq)
qed

lemma scan_labels: "(i, r) \<in> set (scan prev k ls) \<Longrightarrow> k \<le> i \<and> i < k + length ls"
proof (induction ls arbitrary: prev k)
  case Nil
  then show ?case by simp
next
  case (Cons l ls)
  then show ?case by (fastforce simp: Let_def split: if_splits simp del: not_None_eq)
qed

lemma scan_label_filter:
  "filter (\<lambda>x. fst x = i) (scan prev k ls) =
     (if k \<le> i \<and> i < k + length ls \<and> list_all (\<lambda>c. c \<noteq> None) (joined prev ls (i - k))
      then [(i, joined prev ls (i - k))] else [])"
proof (induction ls arbitrary: prev k)
  case Nil
  show ?case by simp
next
  case (Cons l ls)
  show ?case
  proof (cases "i = k")
    case True
    have "filter (\<lambda>x. fst x = i) (scan (fill_row prev (meta_cells l)) (Suc k) ls) = []"
      using True scan_labels[of _ _ "fill_row prev (meta_cells l)" "Suc k" ls]
      by (fastforce simp: filter_empty_conv)
    with True show ?thesis
      by (simp add: Let_def joined_def carried_Cons carried_Nil del: not_None_eq)
  next
    case False
    have j: "k < i \<Longrightarrow> joined prev (l # ls) (i - k) = joined (fill_row prev (meta_cells l)) ls (i - Suc k)"
      by (simp add: joined_def carried_Cons nth_Cons' Suc_diff_Suc)
    from False show ?thesis
      using Cons[of "fill_row prev (meta_cells l)" "Suc k"] j
      by (auto simp: Let_def simp del: not_None_eq)
  qed
qed

lemma scan_mem:
  "(i, r) \<in> set (scan prev k ls) \<longleftrightarrow>
     k \<le> i \<and> i < k + length ls \<and> r = joined prev ls (i - k) \<and> list_all (\<lambda>c. c \<noteq> None) r"
proof -
  have "(i, r) \<in> set (scan prev k ls) \<longleftrightarrow> (i, r) \<in> set (filter (\<lambda>x. fst x = i) (scan prev k ls))"
    by auto
  then show ?thesis
    unfolding scan_label_filter by (auto simp del: not_None_eq)
qed

lemma stat_not_meta: "is_statistic l \<Longrightarrow> \<not> is_metadata l"
  by (auto simp: is_statistic_def is_metadata_def)

lemma complete_set: "list_all (\<lambda>c. c \<noteq> None) r \<longleftrightarrow> None \<notin> set r"
  unfolding list_all_iff by metis

lemma complete_iff:
  "list_all (\<lambda>c. c \<noteq> None) (stat_cells l @ prev) \<longleftrightarrow>
     additions l \<noteq> None \<and> deletions l \<noteq> None \<and> filename l \<noteq> None \<and> None \<notin> set prev"
  unfolding complete_set stat_cells_def by (simp del: not_None_eq) metis

lemma meta_cells_full: "is_metadata l \<Longrightarrow> None \<notin> set (meta_cells l)"
  by (auto simp: is_metadata_def meta_cells_def)

lemma scan_full:
  assumes "\<forall>l\<in>set ls. is_metadata l \<or> is_statistic l" "length prev = 4" "None \<notin> set prev"
  shows "map fst (scan prev k ls) = map fst (filter (\<lambda>(i, l). is_statistic l) (enumerate k ls))"
  using assms
proof (induction ls arbitrary: prev k)
  case Nil
  show ?case by simp
next
  case (Cons l ls)
  from Cons.prems(1) have wf: "\<forall>l\<in>set ls. is_metadata l \<or> is_statistic l" by simp
  show ?case
  proof (cases "is_statistic l")
    case True
    then have "fill_row prev (meta_cells l) = prev"
      using Cons.prems(2) by (simp add: fill_row_stat)
    moreover have "list_all (\<lambda>c. c \<noteq> None) (stat_cells l @ prev)"
      using True Cons.prems(3) by (simp only: complete_iff is_statistic_def) simp
    ultimately show ?thesis
      using True Cons.IH[OF wf Cons.prems(2,3), of "Suc k"] by (simp add: Let_def del: not_None_eq)
  next
    case False
    with Cons.prems(1) have m: "is_metadata l" by simp
    then have f: "fill_row prev (meta_cells l) = meta_cells l"
      using Cons.prems(2) by (simp add: fill_row_meta)
    have "\<not> list_all (\<lambda>c. c \<noteq> None) (stat_cells l @ meta_cells l)"
      using m by (simp add: stat_cells_def is_metadata_def)
    moreover have "length (meta_cells l) = 4" by (simp add: meta_cells_def)
    ultimately show ?thesis
      using False f Cons.IH[OF wf _ meta_cells_full[OF m], of "Suc k"] by (simp add: Let_def del: not_None_eq)
  qed
qed

lemma scan_initial:
  assumes "\<forall>l\<in>set ls. is_metadata l \<or> is_statistic l"
  shows "map fst (scan (replicate 4 None) k ls) =
         map fst (filter (\<lambda>(i, l). is_statistic l) (dropWhile (\<lambda>(i, l). \<not> is_metadata l) (enumerate k ls)))"
  using assms
proof (induction ls arbitrary: k)
  case Nil
  show ?case by simp
next
  case (Cons l ls)
  from Cons.prems(1) have wf: "\<forall>l\<in>set ls. is_metadata l \<or> is_statistic l" by simp
  show ?case
  proof (cases "is_metadata l")
    case True
    then have f: "fill_row (replicate 4 None) (meta_cells l) = meta_cells l"
      by (simp add: fill_row_meta)
    have n: "\<not> list_all (\<lambda>c. c \<noteq> None) (stat_cells l @ meta_cells l)"
      using True by (simp add: stat_cells_def is_metadata_def)
    have s: "\<not> is_statistic l" using True stat_not_meta by blast
    have "length (meta_cells l) = 4" by (simp add: meta_cells_def)
    from scan_full[OF wf this meta_cells_full[OF True], of "Suc k"] True f n s
    show ?thesis by (simp add: Let_def del: not_None_eq)
  next
    case False
    with Cons.prems(1) have s: "is_statistic l" by simp
    then have f: "fill_row (replicate 4 None) (meta_cells l) = replicate 4 None"
      by (simp add: fill_row_stat)
    have n: "\<not> list_all (\<lambda>c. c \<noteq> None) (stat_cells l @ replicate 4 None)"
      by (simp add: eval_nat_numeral)
    from Cons.IH[OF wf, of "Suc k"] False f n
    show ?thesis by (simp add: Let_def del: not_None_eq)
  qed
qed

lemma snd_filter_enumerate:
  "map snd (filter (\<lambda>(i, l). P l) (enumerate k xs)) = filter P xs"
  by (induction xs arbitrary: k) auto

lemma snd_filter_dropWhile_enumerate:
  "map snd (filter (\<lambda>(i, l). P l) (dropWhile (\<lambda>(i, l). Q l) (enumerate k xs))) = filter P (dropWhile Q xs)"
proof (induction xs arbitrary: k)
  case Nil
  show ?case by simp
next
  case (Cons x xs)
  show ?case
  proof (cases "Q x")
    case True
    with Cons[of "Suc k"] show ?thesis by simp
  next
    case False
    then show ?thesis
      using snd_filter_enumerate[of P k "x # xs"] by simp
  qed
qed

lemma is_metadata_line [simp]: "is_metadata (metadata_line h t a s)" "\<not> is_statistic (metadata_line h t a s)"
  by (simp_all add: is_metadata_def is_statistic_def metadata_line_def)

lemma is_statistic_line [simp]: "is_statistic (statistic_line a d f)" "\<not> is_metadata (statistic_line a d f)"
  by (simp_all add: is_metadata_def is_statistic_def statistic_line_def)

section \<open>One record per statistic line\<close>

text \<open>
  C1. When every line of the log is a meta data line or a statistic line, the
  reconciliation returns exactly one record per statistic line that comes after the first
  meta data line, in the order of the log: the labels of the output rows are the positions
  of those statistic lines, in increasing order, and there are as many output rows as
  such lines.
\<close>

theorem one_record_per_statistic_line:
  assumes "\<forall>l\<in>set ls. is_metadata l \<or> is_statistic l"
  shows "\<exists>out. reconcile (commits_raw ls) = Inr out \<and>
           map fst (rows out) =
             map fst (filter (\<lambda>(i, l). is_statistic l)
                        (dropWhile (\<lambda>(i, l). \<not> is_metadata l) (enumerate 0 ls))) \<and>
           length (rows out) = length (filter is_statistic (dropWhile (\<lambda>l. \<not> is_metadata l) ls))"
proof -
  let ?sel = "filter (\<lambda>(i, l). is_statistic l) (dropWhile (\<lambda>(i, l). \<not> is_metadata l) (enumerate 0 ls))"
  have labels: "map fst (scan (replicate 4 None) 0 ls) = map fst ?sel"
    using assms by (rule scan_initial)
  have "length (scan (replicate 4 None) 0 ls) = length (map fst ?sel)"
    using labels by (metis length_map)
  also have "\<dots> = length (map snd ?sel)" by simp
  also have "\<dots> = length (filter is_statistic (dropWhile (\<lambda>l. \<not> is_metadata l) ls))"
    by (simp only: snd_filter_dropWhile_enumerate)
  finally show ?thesis
    using labels by (simp add: reconcile_scan)
qed

text \<open>On a log with a leading statistic line, the records are those of lines 2 and 4.\<close>

theorem one_record_per_statistic_line_witness:
  "\<exists>out. reconcile (commits_raw
       [statistic_line (Num 1) (Num 1) (Str ''early.txt''),
        metadata_line (Num 1) (Num 100) (Str ''A'') (Str ''x''),
        statistic_line (Num 2) (Num 1) (Str ''f.txt''),
        metadata_line (Num 2) (Num 200) (Str ''B'') (Str ''y''),
        statistic_line (Num 5) (Num 0) (Str ''g.txt'')]) = Inr out \<and>
     map fst (rows out) = [2, 4] \<and> length (rows out) = 2"
  using one_record_per_statistic_line[of
       "[statistic_line (Num 1) (Num 1) (Str ''early.txt''),
        metadata_line (Num 1) (Num 100) (Str ''A'') (Str ''x''),
        statistic_line (Num 2) (Num 1) (Str ''f.txt''),
        metadata_line (Num 2) (Num 200) (Str ''B'') (Str ''y''),
        statistic_line (Num 5) (Num 0) (Str ''g.txt'')]"]
  by (simp add: eval_nat_numeral)

text \<open>
  Without that condition the count can be wrong. In the log below the first commit line
  has no author and the second no message. No line is a meta data line, and both statistic
  lines come after a line with commit meta data; the output has exactly one record, that
  of the last line, so its length is neither 0 nor 2.
\<close>

theorem one_record_per_statistic_line_counterexample:
  "reconcile (commits_raw log_without_author_then_message)
     = Inr \<lparr>columns = [''additions'', ''deletions'', ''filename'', ''sha'', ''timestamp'',
                        ''author'', ''message''],
            rows = [(3, [Some (Num 5), Some (Num 0), Some (Str ''g.txt''),
                         Some (Num 2), Some (Num 200), Some (Str ''B''), Some (Str ''x'')])]\<rparr> \<and>
   \<not> (\<exists>out. reconcile (commits_raw log_without_author_then_message) = Inr out \<and>
          length (rows out) =
            length (filter is_statistic
                      (dropWhile (\<lambda>l. \<not> is_metadata l) log_without_author_then_message))) \<and>
   \<not> (\<exists>out. reconcile (commits_raw log_without_author_then_message) = Inr out \<and>
          length (rows out) =
            length (filter is_statistic (dropWhile no_metadata log_without_author_then_message)))"
proof -
  have out: "reconcile (commits_raw log_without_author_then_message)
     = Inr \<lparr>columns = [''additions'', ''deletions'', ''filename'', ''sha'', ''timestamp'',
                        ''author'', ''message''],
            rows = [(3, [Some (Num 5), Some (Num 0), Some (Str ''g.txt''),
                         Some (Num 2), Some (Num 200), Some (Str ''B''), Some (Str ''x'')])]\<rparr>"
    by (simp add: log_without_author_then_message_def
        reconcile_def commits_def commits_raw_def getitem_def fillna_ffill_def join_def
        dropna_def fill_row_def cell_at_def stat_names_def meta_names_def stat_cells_def
        meta_cells_def metadata_line_def statistic_line_def)
  have strict: "length (filter is_statistic
      (dropWhile (\<lambda>l. \<not> is_metadata l) log_without_author_then_message)) = 0"
    by (simp add: log_without_author_then_message_def metadata_line_def statistic_line_def
        is_metadata_def is_statistic_def)
  have liberal: "length (filter is_statistic
      (dropWhile no_metadata log_without_author_then_message)) = 2"
    by (simp add: log_without_author_then_message_def metadata_line_def statistic_line_def
        is_statistic_def no_metadata_def)
  show ?thesis
    unfolding out strict liberal by simp
qed

section \<open>Meta data of the nearest preceding meta data line\<close>

lemma length_meta_cells: "length (meta_cells l) = 4"
  by (simp add: meta_cells_def)

lemma carried_nearest:
  assumes "length prev = 4" "is_metadata m" "\<forall>l\<in>set ss. is_statistic l"
  shows "carried prev (pre @ [m] @ ss) = meta_cells m"
proof -
  have "carried prev (pre @ [m] @ ss) = carried (carried prev (pre @ [m])) ss"
    unfolding carried_def by simp
  also have "\<dots> = carried (meta_cells m) ss"
    using assms(1,2) by (simp add: carried_metadata_last)
  also have "\<dots> = meta_cells m"
    using assms(3) by (simp add: carried_stats length_meta_cells)
  finally show ?thesis .
qed

lemma take_split_at:
  assumes "j < i" "i < length ls"
  shows "take (Suc i) ls = take j ls @ [ls ! j] @ (drop (Suc j) (take i ls) @ [ls ! i])"
proof -
  have "take (Suc i) ls = take i ls @ [ls ! i]"
    using assms(2) by (simp add: take_Suc_conv_app_nth)
  moreover have "take i ls = take j (take i ls) @ [take i ls ! j] @ drop (Suc j) (take i ls)"
    using assms id_take_nth_drop[of j "take i ls"] by simp
  moreover have "take j (take i ls) = take j ls" "take i ls ! j = ls ! j"
    using assms by (simp_all add: min_def)
  ultimately show ?thesis by simp
qed

text \<open>
  C2. Let line \<open>i\<close> be a statistic line and line \<open>j\<close> a meta data line before it, with
  only statistic lines between them, so that \<open>j\<close> is the nearest meta data line before
  \<open>i\<close>. Then the output has exactly one record labelled \<open>i\<close>; its file fields are those
  of line \<open>i\<close>, and its commit id, timestamp, author and message are those of line \<open>j\<close>.
  Nothing is assumed about the lines before \<open>j\<close> or after \<open>i\<close>.
\<close>

theorem metadata_of_nearest_preceding_line:
  assumes i: "i < length ls" "is_statistic (ls ! i)"
    and j: "j < i" "is_metadata (ls ! j)"
    and between: "\<forall>k. j < k \<and> k < i \<longrightarrow> is_statistic (ls ! k)"
  shows "\<exists>out. reconcile (commits_raw ls) = Inr out \<and>
           filter (\<lambda>x. fst x = i) (rows out) =
             [(i, [additions (ls ! i), deletions (ls ! i), filename (ls ! i),
                   sha (ls ! j), timestamp (ls ! j), author (ls ! j), message (ls ! j)])]"
proof -
  let ?mid = "drop (Suc j) (take i ls)"
  have "is_statistic l" if "l \<in> set (?mid @ [ls ! i])" for l
  proof (cases "l = ls ! i")
    case True
    with i(2) show ?thesis by simp
  next
    case False
    with that have "l \<in> set ?mid" by simp
    then obtain n where n: "n < length ?mid" "l = ?mid ! n"
      by (auto simp: in_set_conv_nth)
    then have "Suc j + n < i" using i(1) by simp
    moreover from this n have "l = ls ! (Suc j + n)" using i(1) by simp
    ultimately show ?thesis using between by simp
  qed
  then have "carried (replicate 4 None) (take j ls @ [ls ! j] @ (?mid @ [ls ! i])) = meta_cells (ls ! j)"
    using j(2) by (intro carried_nearest) auto
  then have row: "joined (replicate 4 None) ls i = stat_cells (ls ! i) @ meta_cells (ls ! j)"
    using take_split_at[OF j(1) i(1)] by (simp add: joined_def)
  have "list_all (\<lambda>c. c \<noteq> None) (stat_cells (ls ! i) @ meta_cells (ls ! j))"
    using i(2) meta_cells_full[OF j(2)] by (simp only: complete_iff is_statistic_def) simp
  with row i(1) have "filter (\<lambda>x. fst x = i) (scan (replicate 4 None) 0 ls) =
      [(i, stat_cells (ls ! i) @ meta_cells (ls ! j))]"
    by (simp add: scan_label_filter del: not_None_eq)
  then show ?thesis
    by (simp add: reconcile_scan stat_cells_def meta_cells_def)
qed

text \<open>Two commits, the second with two changed files: the second file takes the second
  commit's meta data.\<close>

theorem metadata_of_nearest_preceding_line_witness:
  "\<exists>out. reconcile (commits_raw
       [metadata_line (Str ''101c9dc'') (Num 1498817227) (Str ''Dave Syer'') (Str ''Update Spring Boot''),
        metadata_line (Str ''ffa967c'') (Num 1492026060) (Str ''Antoine Rey'') (Str ''repo renamed''),
        statistic_line (Num 1) (Num 1) (Str ''readme.md''),
        statistic_line (Num 2) (Num 3) (Str ''pom.xml'')]) = Inr out \<and>
     filter (\<lambda>x. fst x = 3) (rows out) =
       [(3, [Some (Num 2), Some (Num 3), Some (Str ''pom.xml''),
             Some (Str ''ffa967c''), Some (Num 1492026060), Some (Str ''Antoine Rey''), Some (Str ''repo renamed'')])]"
proof -
  let ?L = "[metadata_line (Str ''101c9dc'') (Num 1498817227) (Str ''Dave Syer'') (Str ''Update Spring Boot''),
        metadata_line (Str ''ffa967c'') (Num 1492026060) (Str ''Antoine Rey'') (Str ''repo renamed''),
        statistic_line (Num 1) (Num 1) (Str ''readme.md''),
        statistic_line (Num 2) (Num 3) (Str ''pom.xml'')]"
  have between: "\<forall>k. 1 < k \<and> k < 3 \<longrightarrow> is_statistic (?L ! k)"
    by (auto simp: less_Suc_eq eval_nat_numeral)
  have "is_statistic (?L ! 3)" "is_metadata (?L ! 1)" "(3::nat) < length ?L" "(1::nat) < 3"
    by (simp_all add: eval_nat_numeral)
  from metadata_of_nearest_preceding_line[OF this(3,1,4,2) between]
  show ?thesis
    by (simp add: eval_nat_numeral metadata_line_def statistic_line_def)
qed

text \<open>
  When a commit line between them has a null field, the record is neither that of the
  nearest meta data line nor that of the commit line: in the log below the second commit
  has no message, line 0 is the only meta data line, and the record of line 2 has the
  second commit's id, timestamp and author with the first commit's message.
\<close>

theorem metadata_of_nearest_preceding_line_counterexample:
  "reconcile (commits_raw log_without_message)
     = Inr \<lparr>columns = [''additions'', ''deletions'', ''filename'', ''sha'', ''timestamp'',
                        ''author'', ''message''],
            rows = [(2, [Some (Num 1), Some (Num 1), Some (Str ''readme.md''),
                         Some (Str ''ffa967c''), Some (Num 1492026060), Some (Str ''Antoine Rey''),
                         Some (Str ''Update Spring Boot'')])]\<rparr> \<and>
   is_statistic (log_without_message ! 2) \<and>
   is_metadata (log_without_message ! 0) \<and>
   \<not> is_metadata (log_without_message ! 1) \<and>
   \<not> (\<exists>out. reconcile (commits_raw log_without_message) = Inr out \<and>
          filter (\<lambda>x. fst x = 2) (rows out) =
            [(2, [additions (log_without_message ! 2), deletions (log_without_message ! 2),
                  filename (log_without_message ! 2),
                  sha (log_without_message ! 0), timestamp (log_without_message ! 0),
                  author (log_without_message ! 0), message (log_without_message ! 0)])]) \<and>
   \<not> (\<exists>out. reconcile (commits_raw log_without_message) = Inr out \<and>
          filter (\<lambda>x. fst x = 2) (rows out) =
            [(2, [additions (log_without_message ! 2), deletions (log_without_message ! 2),
                  filename (log_without_message ! 2),
                  sha (log_without_message ! 1), timestamp (log_without_message ! 1),
                  author (log_without_message ! 1), message (log_without_message ! 1)])])"
proof -
  have out: "reconcile (commits_raw log_without_message)
     = Inr \<lparr>columns = [''additions'', ''deletions'', ''filename'', ''sha'', ''timestamp'',
                        ''author'', ''message''],
            rows = [(2, [Some (Num 1), Some (Num 1), Some (Str ''readme.md''),
                         Some (Str ''ffa967c''), Some (Num 1492026060), Some (Str ''Antoine Rey''),
                         Some (Str ''Update Spring Boot'')])]\<rparr>"
    by (simp add: log_without_message_def
        reconcile_def commits_def commits_raw_def getitem_def fillna_ffill_def join_def
        dropna_def fill_row_def cell_at_def stat_names_def meta_names_def stat_cells_def
        meta_cells_def metadata_line_def statistic_line_def)
  have lines: "is_statistic (log_without_message ! 2)" "is_metadata (log_without_message ! 0)"
    "\<not> is_metadata (log_without_message ! 1)"
    by (simp_all add: log_without_message_def eval_nat_numeral metadata_line_def is_metadata_def)
  have fields: "sha (log_without_message ! 0) = Some (Str ''101c9dc'')"
    "message (log_without_message ! 1) = None"
    by (simp_all add: log_without_message_def metadata_line_def)
  show ?thesis
    unfolding out using lines fields by simp
qed

section \<open>No null in the output\<close>

lemma seven_names:
  "stat_names @ meta_names =
     [''additions'', ''deletions'', ''filename'', ''sha'', ''timestamp'', ''author'', ''message'']"
  by (simp add: stat_names_def meta_names_def)

lemma length_joined: "length prev = 4 \<Longrightarrow> length (joined prev ls n) = 7"
  by (simp add: joined_def stat_cells_def length_carried)

text \<open>
  C3. For every table, whatever its lines look like, the reconciliation returns a frame
  with the seven columns additions, deletions, filename, sha, timestamp, author and
  message, and every output record has seven cells, none of them null.
\<close>

theorem output_records_fully_populated:
  "\<exists>out. reconcile (commits_raw ls) = Inr out \<and>
     columns out =
       [''additions'', ''deletions'', ''filename'', ''sha'', ''timestamp'', ''author'', ''message''] \<and>
     (\<forall>(i, r)\<in>set (rows out). length r = 7 \<and> None \<notin> set r)"
proof -
  have "length r = 7 \<and> None \<notin> set r" if "(i, r) \<in> set (scan (replicate 4 None) 0 ls)" for i r
    using that unfolding scan_mem complete_set by (auto simp: length_joined)
  then show ?thesis
    by (auto simp: reconcile_scan seven_names simp del: not_None_eq)
qed

theorem output_records_fully_populated_witness:
  "\<exists>out. reconcile (commits_raw
       [metadata_line (Num 1) (Num 100) (Str ''A'') (Str ''x''),
        statistic_line (Num 2) (Num 1) (Str ''f.txt'')]) = Inr out \<and>
     rows out = [(1, [Some (Num 2), Some (Num 1), Some (Str ''f.txt''),
                      Some (Num 1), Some (Num 100), Some (Str ''A''), Some (Str ''x'')])] \<and>
     (\<forall>(i, r)\<in>set (rows out). length r = 7 \<and> None \<notin> set r)"
proof -
  let ?L = "[metadata_line (Num 1) (Num 100) (Str ''A'') (Str ''x''),
        statistic_line (Num 2) (Num 1) (Str ''f.txt'')]"
  from output_records_fully_populated[of ?L]
  obtain out where out: "reconcile (commits_raw ?L) = Inr out"
    "\<forall>(i, r)\<in>set (rows out). length r = 7 \<and> None \<notin> set r"
    by blast
  have "reconcile (commits_raw ?L) = Inr \<lparr>columns = stat_names @ meta_names,
     rows = [(1, [Some (Num 2), Some (Num 1), Some (Str ''f.txt''),
                      Some (Num 1), Some (Num 100), Some (Str ''A''), Some (Str ''x'')])]\<rparr>"
    by (simp add: reconcile_scan Let_def fill_row_def meta_cells_def stat_cells_def
        metadata_line_def statistic_line_def eval_nat_numeral)
  with out show ?thesis by auto
qed

section \<open>Statistic lines before the first meta data line\<close>

lemma statistic_no_metadata: "is_statistic l \<Longrightarrow> no_metadata l"
  by (simp add: is_statistic_def no_metadata_def)

lemma fill_row_no_metadata: "length prev = 4 \<Longrightarrow> no_metadata l \<Longrightarrow> fill_row prev (meta_cells l) = prev"
  by (auto dest!: len4 simp: fill_row_def meta_cells_def no_metadata_def)

lemma carried_no_metadata: "length prev = 4 \<Longrightarrow> \<forall>l\<in>set ls. no_metadata l \<Longrightarrow> carried prev ls = prev"
  by (induction ls arbitrary: prev) (simp_all add: carried_Nil carried_Cons fill_row_no_metadata)

lemma scan_no_metadata_initial:
  "\<forall>l\<in>set pre. no_metadata l \<Longrightarrow> scan (replicate 4 None) k pre = []"
proof (induction pre arbitrary: k)
  case Nil
  show ?case by simp
next
  case (Cons l pre)
  then have "fill_row (replicate 4 None) (meta_cells l) = replicate 4 None"
    by (simp add: fill_row_no_metadata)
  moreover have "\<not> list_all (\<lambda>c. c \<noteq> None) (stat_cells l @ replicate 4 None)"
    by (simp add: eval_nat_numeral)
  ultimately show ?case using Cons by (simp add: Let_def del: not_None_eq)
qed

text \<open>
  C4. Let \<open>pre\<close> be the lines at the start of the log that carry no commit meta data at
  all, that is, the lines before the first line in which any of the four meta data fields
  is present. The reconciliation does not fail on them, and no statistic line among them
  produces an output record. The lines after them are processed as if the leading lines
  were not there: the output is the output for the remaining lines, with the labels moved
  by the number of leading lines. Nothing is assumed about the remaining lines.
\<close>

theorem leading_statistic_lines_dropped:
  assumes "\<forall>l\<in>set pre. no_metadata l"
  shows "\<exists>out out'. reconcile (commits_raw (pre @ rest)) = Inr out \<and>
           reconcile (commits_raw rest) = Inr out' \<and>
           (\<forall>i<length pre. is_statistic (pre ! i) \<longrightarrow> i \<notin> fst ` set (rows out)) \<and>
           rows out = map (\<lambda>(i, r). (i + length pre, r)) (rows out')"
proof -
  have "scan (replicate 4 None) 0 (pre @ rest) =
          scan (replicate 4 None) 0 pre @ scan (carried (replicate 4 None) pre) (0 + length pre) rest"
    by (rule scan_append)
  also have "\<dots> = scan (replicate 4 None) (0 + length pre) rest"
    using assms by (simp add: scan_no_metadata_initial carried_no_metadata)
  also have "\<dots> = map (\<lambda>(i, r). (i + length pre, r)) (scan (replicate 4 None) 0 rest)"
    by (rule scan_shift)
  finally have eq: "scan (replicate 4 None) 0 (pre @ rest) =
      map (\<lambda>(i, r). (i + length pre, r)) (scan (replicate 4 None) 0 rest)" .
  then have "\<forall>i<length pre. i \<notin> fst ` set (scan (replicate 4 None) 0 (pre @ rest))"
    by auto
  with eq show ?thesis
    by (simp add: reconcile_scan)
qed

text \<open>A statistic line in front of a commit with one file: only the file of the commit
  is in the output, under its label 2.\<close>

theorem leading_statistic_lines_dropped_witness:
  "\<exists>out out'. reconcile (commits_raw
        ([statistic_line (Num 1) (Num 1) (Str ''early.txt'')] @
         [metadata_line (Num 1) (Num 100) (Str ''A'') (Str ''x''),
          statistic_line (Num 2) (Num 1) (Str ''f.txt'')])) = Inr out \<and>
      reconcile (commits_raw
         [metadata_line (Num 1) (Num 100) (Str ''A'') (Str ''x''),
          statistic_line (Num 2) (Num 1) (Str ''f.txt'')]) = Inr out' \<and>
      0 \<notin> fst ` set (rows out) \<and>
      rows out' = [(1, [Some (Num 2), Some (Num 1), Some (Str ''f.txt''),
                      Some (Num 1), Some (Num 100), Some (Str ''A''), Some (Str ''x'')])] \<and>
      rows out = [(2, [Some (Num 2), Some (Num 1), Some (Str ''f.txt''),
                      Some (Num 1), Some (Num 100), Some (Str ''A''), Some (Str ''x'')])]"
proof -
  let ?pre = "[statistic_line (Num 1) (Num 1) (Str ''early.txt'')]"
  let ?rest = "[metadata_line (Num 1) (Num 100) (Str ''A'') (Str ''x''),
          statistic_line (Num 2) (Num 1) (Str ''f.txt'')]"
  have "\<forall>l\<in>set ?pre. no_metadata l"
    by (simp add: statistic_no_metadata)
  from leading_statistic_lines_dropped[OF this, of ?rest]
  obtain out out' where out: "reconcile (commits_raw (?pre @ ?rest)) = Inr out"
    "reconcile (commits_raw ?rest) = Inr out'"
    "\<forall>i<length ?pre. is_statistic (?pre ! i) \<longrightarrow> i \<notin> fst ` set (rows out)"
    "rows out = map (\<lambda>(i, r). (i + length ?pre, r)) (rows out')"
    by blast
  from out(3) have zero: "0 \<notin> fst ` set (rows out)" by simp
  have "reconcile (commits_raw ?rest) = Inr \<lparr>columns = stat_names @ meta_names,
     rows = [(1, [Some (Num 2), Some (Num 1), Some (Str ''f.txt''),
                      Some (Num 1), Some (Num 100), Some (Str ''A''), Some (Str ''x'')])]\<rparr>"
    by (simp add: reconcile_scan Let_def fill_row_def meta_cells_def stat_cells_def
        metadata_line_def statistic_line_def eval_nat_numeral)
  with out zero show ?thesis by (intro exI[of _ out] exI[of _ out']) auto
qed


text \<open>
  A statistic line that only comes before the first complete meta data line can be
  emitted. In the log below the first commit line has no author and the second no message,
  so line 3 is the first meta data line; the statistic line 2 before it has all four
  columns filled from lines 0 and 1 and is in the output.
\<close>

theorem leading_statistic_lines_dropped_counterexample:
  "reconcile (commits_raw log_statistic_before_first_metadata)
     = Inr \<lparr>columns = [''additions'', ''deletions'', ''filename'', ''sha'', ''timestamp'',
                        ''author'', ''message''],
            rows = [(2, [Some (Num 2), Some (Num 1), Some (Str ''f.txt''),
                         Some (Num 2), Some (Num 200), Some (Str ''B''), Some (Str ''x'')]),
                    (4, [Some (Num 5), Some (Num 0), Some (Str ''g.txt''),
                         Some (Num 3), Some (Num 300), Some (Str ''C''), Some (Str ''z'')])]\<rparr> \<and>
   is_statistic (log_statistic_before_first_metadata ! 2) \<and>
   \<not> is_metadata (log_statistic_before_first_metadata ! 0) \<and>
   \<not> is_metadata (log_statistic_before_first_metadata ! 1) \<and>
   is_metadata (log_statistic_before_first_metadata ! 3) \<and>
   \<not> (\<exists>out. reconcile (commits_raw log_statistic_before_first_metadata) = Inr out \<and>
          2 \<notin> fst ` set (rows out))"
proof -
  have out: "reconcile (commits_raw log_statistic_before_first_metadata)
     = Inr \<lparr>columns = [''additions'', ''deletions'', ''filename'', ''sha'', ''timestamp'',
                        ''author'', ''message''],
            rows = [(2, [Some (Num 2), Some (Num 1), Some (Str ''f.txt''),
                         Some (Num 2), Some (Num 200), Some (Str ''B''), Some (Str ''x'')]),
                    (4, [Some (Num 5), Some (Num 0), Some (Str ''g.txt''),
                         Some (Num 3), Some (Num 300), Some (Str ''C''), Some (Str ''z'')])]\<rparr>"
    by (simp add: log_statistic_before_first_metadata_def pipeline_defs)
  have lines: "is_statistic (log_statistic_before_first_metadata ! 2)"
    "\<not> is_metadata (log_statistic_before_first_metadata ! 0)"
    "\<not> is_metadata (log_statistic_before_first_metadata ! 1)"
    "is_metadata (log_statistic_before_first_metadata ! 3)"
    by (simp_all add: log_statistic_before_first_metadata_def eval_nat_numeral
        metadata_line_def is_metadata_def)
  show ?thesis
    unfolding out using lines by simp
qed

section \<open>Meta data lines\<close>

lemma scan_metadata_nil: "\<forall>l\<in>set xs. is_metadata l \<Longrightarrow> scan prev k xs = []"
proof (induction xs arbitrary: prev k)
  case Nil
  show ?case by simp
next
  case (Cons l xs)
  from Cons.prems have "is_metadata l" by simp
  then have "\<not> list_all (\<lambda>c. c \<noteq> None) (stat_cells l @ fill_row prev (meta_cells l))"
    by (simp only: complete_iff is_metadata_def) simp
  moreover from Cons have "scan (fill_row prev (meta_cells l)) (Suc k) xs = []" by simp
  ultimately show ?case by (simp add: Let_def del: not_None_eq)
qed

lemma snd_scan_label: "map snd (scan prev k ls) = map snd (scan prev 0 ls)"
proof -
  have "map snd (map (\<lambda>(i, r). (i + k, r)) xs) = map snd xs" for xs :: "(nat \<times> 'b) list"
    by (induction xs) auto
  with scan_shift[of prev 0 k ls] show ?thesis by (simp only: add_0)
qed

lemma scan_drop_run:
  assumes "\<forall>l\<in>set run. is_metadata l" "is_metadata m" "length prev = 4"
  shows "map snd (scan prev k (pre @ run @ [m] @ rest)) = map snd (scan prev k (pre @ [m] @ rest))"
proof -
  let ?p = "carried prev pre"
  have len: "length ?p = 4" using assms(3) by (rule length_carried)
  have run: "scan ?p a (run @ [m]) = []" "scan ?p a [m] = []" for a
    using assms(1,2) by (simp_all add: scan_metadata_nil del: scan.simps)
  have c: "carried ?p (run @ [m]) = meta_cells m" "carried ?p [m] = meta_cells m"
    using carried_metadata_last[OF len assms(2), of run] carried_metadata_last[OF len assms(2), of "[]"]
    by simp_all
  have split: "scan prev k (pre @ xs @ rest) =
      scan prev k pre @ scan ?p (k + length pre) xs @
      scan (carried ?p xs) (k + length pre + length xs) rest" for xs
    unfolding scan_append ..
  have "map snd (scan prev k (pre @ (run @ [m]) @ rest)) =
          map snd (scan prev k pre) @ map snd (scan (meta_cells m) 0 rest)"
    unfolding split[of "run @ [m]"] run c
    using snd_scan_label[of "meta_cells m" "k + length pre + length (run @ [m])" rest]
    by (simp only: map_append append_Nil)
  moreover have "map snd (scan prev k (pre @ [m] @ rest)) =
          map snd (scan prev k pre) @ map snd (scan (meta_cells m) 0 rest)"
    unfolding split[of "[m]"] run c
    using snd_scan_label[of "meta_cells m" "k + length pre + length [m]" rest]
    by (simp only: map_append append_Nil)
  ultimately show ?thesis by simp
qed

lemma metadata_line_no_record:
  assumes "i < length xs" "is_metadata (xs ! i)"
  shows "i \<notin> fst ` set (scan (replicate 4 None) 0 xs)"
proof
  assume "i \<in> fst ` set (scan (replicate 4 None) 0 xs)"
  then obtain r where "(i, r) \<in> set (scan (replicate 4 None) 0 xs)" by force
  then have "list_all (\<lambda>c. c \<noteq> None) (joined (replicate 4 None) xs i)"
    by (auto simp: scan_mem simp del: not_None_eq)
  then have "additions (xs ! i) \<noteq> None"
    unfolding joined_def complete_iff by simp
  with assms(2) show False by (simp add: is_metadata_def)
qed

lemma record_after_run:
  assumes "is_metadata m" "\<forall>l\<in>set ss. is_statistic l" "n < length ss" "length prev = 4"
  shows "filter (\<lambda>x. fst x = length pre + 1 + n) (scan prev 0 (pre @ [m] @ ss @ rest)) =
           [(length pre + 1 + n, stat_cells (ss ! n) @ meta_cells m)]"
proof -
  let ?ls = "pre @ [m] @ ss @ rest"
  let ?i = "length pre + 1 + n"
  have nth: "?ls ! ?i = ss ! n"
    using assms(3) by (simp add: nth_append)
  have "take (Suc ?i) ?ls = pre @ [m] @ take (Suc n) ss"
    using assms(3) by simp
  moreover have "\<forall>l\<in>set (take (Suc n) ss). is_statistic l"
    using assms(2) by (meson in_set_takeD)
  ultimately have "carried prev (take (Suc ?i) ?ls) = meta_cells m"
    using assms(1,4) by (simp only: carried_nearest)
  with nth have row: "joined prev ?ls (?i - 0) = stat_cells (ss ! n) @ meta_cells m"
    by (simp only: joined_def diff_zero)
  have "is_statistic (ss ! n)" using assms(2,3) by simp
  then have "list_all (\<lambda>c. c \<noteq> None) (stat_cells (ss ! n) @ meta_cells m)"
    using meta_cells_full[OF assms(1)] by (simp only: complete_iff is_statistic_def) simp
  moreover have "?i < 0 + length ?ls" using assms(3) by simp
  ultimately show ?thesis
    unfolding scan_label_filter row by (simp del: not_None_eq)
qed

text \<open>
  C5. A meta data line has all four meta data fields and no file field. No such line
  produces an output record of its own: in every log, the label of a meta data line is
  not the label of any output record. For a run of meta data lines followed by a last meta
  data line \<open>m\<close> and then, directly, statistic lines \<open>ss\<close>, the earlier lines of the run
  contribute to no output record: without them the output records are the same. Each of
  the statistic lines \<open>ss\<close> has exactly one record, and its commit id, timestamp, author
  and message are those of \<open>m\<close>, the last line of the run. The lines before the run and
  after \<open>ss\<close> are arbitrary.
\<close>

theorem metadata_lines_emit_nothing:
  assumes "\<forall>l\<in>set run. is_metadata l" "is_metadata (m :: 'v line)" "\<forall>l\<in>set ss. is_statistic l"
  shows "(\<forall>xs :: 'v line list. \<exists>out. reconcile (commits_raw xs) = Inr out \<and>
            (\<forall>i<length xs. is_metadata (xs ! i) \<longrightarrow> i \<notin> fst ` set (rows out))) \<and>
         (\<exists>out out'. reconcile (commits_raw (pre @ run @ [m] @ ss @ rest)) = Inr out \<and>
            reconcile (commits_raw (pre @ [m] @ ss @ rest)) = Inr out' \<and>
            map snd (rows out) = map snd (rows out') \<and>
            (\<forall>n<length ss.
               filter (\<lambda>x. fst x = length pre + length run + 1 + n) (rows out) =
                 [(length pre + length run + 1 + n,
                   [additions (ss ! n), deletions (ss ! n), filename (ss ! n),
                    sha m, timestamp m, author m, message m])]))"
proof -
  let ?init = "replicate 4 None :: 'v cell list"
  have none: "\<forall>xs :: 'v line list. \<forall>i<length xs. is_metadata (xs ! i) \<longrightarrow>
                i \<notin> fst ` set (scan ?init 0 xs)"
    using metadata_line_no_record by blast
  have same: "map snd (scan ?init 0 (pre @ run @ [m] @ ss @ rest)) =
              map snd (scan ?init 0 (pre @ [m] @ ss @ rest))"
    using assms(1,2) by (intro scan_drop_run) simp_all
  have rec: "\<forall>n<length ss.
      filter (\<lambda>x. fst x = length pre + length run + 1 + n) (scan ?init 0 (pre @ run @ [m] @ ss @ rest)) =
        [(length pre + length run + 1 + n, stat_cells (ss ! n) @ meta_cells m)]"
    using record_after_run[OF assms(2,3), of _ ?init "pre @ run" rest] by simp
  from none same rec show ?thesis
    unfolding reconcile_scan stat_cells_def meta_cells_def by simp
qed

text \<open>Two commits without a file in between: the file after them takes the second
  commit's meta data, and neither commit line is in the output.\<close>

theorem metadata_lines_emit_nothing_witness:
  "(\<exists>out. reconcile (commits_raw
        [metadata_line (Num 1) (Num 100) (Str ''A'') (Str ''x''),
         metadata_line (Num 2) (Num 200) (Str ''B'') (Str ''y''),
         statistic_line (Num 5) (Num 0) (Str ''g.txt'')]) = Inr out \<and>
      0 \<notin> fst ` set (rows out) \<and> 1 \<notin> fst ` set (rows out)) \<and>
   (\<exists>out out'. reconcile (commits_raw
        [metadata_line (Num 1) (Num 100) (Str ''A'') (Str ''x''),
         metadata_line (Num 2) (Num 200) (Str ''B'') (Str ''y''),
         statistic_line (Num 5) (Num 0) (Str ''g.txt'')]) = Inr out \<and>
      reconcile (commits_raw
        [metadata_line (Num 2) (Num 200) (Str ''B'') (Str ''y''),
         statistic_line (Num 5) (Num 0) (Str ''g.txt'')]) = Inr out' \<and>
      map snd (rows out) = map snd (rows out') \<and>
      filter (\<lambda>x. fst x = 2) (rows out) =
        [(2, [Some (Num 5), Some (Num 0), Some (Str ''g.txt''),
              Some (Num 2), Some (Num 200), Some (Str ''B''), Some (Str ''y'')])])"
proof -
  let ?m1 = "metadata_line (Num 1) (Num 100) (Str ''A'') (Str ''x'')"
  let ?m2 = "metadata_line (Num 2) (Num 200) (Str ''B'') (Str ''y'')"
  let ?s = "statistic_line (Num 5) (Num 0) (Str ''g.txt'')"
  have run: "\<forall>l\<in>set [?m1]. is_metadata l" and m: "is_metadata ?m2"
    and ss: "\<forall>l\<in>set [?s]. is_statistic l"
    by simp_all
  note inst = metadata_lines_emit_nothing[OF run m ss, of "[]" "[]"]
  from inst obtain out where out: "reconcile (commits_raw [?m1, ?m2, ?s]) = Inr out"
    "\<forall>i<length [?m1, ?m2, ?s]. is_metadata ([?m1, ?m2, ?s] ! i) \<longrightarrow> i \<notin> fst ` set (rows out)"
    by blast
  from out(2) have "0 \<notin> fst ` set (rows out)" "1 \<notin> fst ` set (rows out)"
    by (auto simp: eval_nat_numeral)
  with out(1) have first: "\<exists>out. reconcile (commits_raw [?m1, ?m2, ?s]) = Inr out \<and>
      0 \<notin> fst ` set (rows out) \<and> 1 \<notin> fst ` set (rows out)"
    by blast
  from inst have second: "\<exists>out out'. reconcile (commits_raw [?m1, ?m2, ?s]) = Inr out \<and>
      reconcile (commits_raw [?m2, ?s]) = Inr out' \<and>
      map snd (rows out) = map snd (rows out') \<and>
      filter (\<lambda>x. fst x = 2) (rows out) =
        [(2, [Some (Num 5), Some (Num 0), Some (Str ''g.txt''),
              Some (Num 2), Some (Num 200), Some (Str ''B''), Some (Str ''y'')])]"
    by (simp add: eval_nat_numeral metadata_line_def statistic_line_def)
  from first second show ?thesis by (rule conjI)
qed

text \<open>
  Without these conditions a statistic record can inherit from other lines than the last
  of the run. In the first log a line with only a commit id follows the run of lines 0 and
  1, and the record of line 3 has that commit id with the timestamp, author and message of
  line 1. In the second log the last commit line has no message: the record takes the
  message of the earlier commit line, and without that earlier line there is no record at
  all.
\<close>

theorem metadata_lines_emit_nothing_counterexample:
  "reconcile (commits_raw log_with_sha_only_line)
     = Inr \<lparr>columns = [''additions'', ''deletions'', ''filename'', ''sha'', ''timestamp'',
                        ''author'', ''message''],
            rows = [(3, [Some (Num 5), Some (Num 0), Some (Str ''g.txt''),
                         Some (Num 9), Some (Num 200), Some (Str ''B''), Some (Str ''y'')])]\<rparr> \<and>
   is_metadata (log_with_sha_only_line ! 0) \<and>
   is_metadata (log_with_sha_only_line ! 1) \<and>
   \<not> is_metadata (log_with_sha_only_line ! 2) \<and>
   \<not> is_statistic (log_with_sha_only_line ! 2) \<and>
   is_statistic (log_with_sha_only_line ! 3) \<and>
   \<not> (\<exists>out. reconcile (commits_raw log_with_sha_only_line) = Inr out \<and>
          filter (\<lambda>x. fst x = 3) (rows out) =
            [(3, [additions (log_with_sha_only_line ! 3), deletions (log_with_sha_only_line ! 3),
                  filename (log_with_sha_only_line ! 3),
                  sha (log_with_sha_only_line ! 1), timestamp (log_with_sha_only_line ! 1),
                  author (log_with_sha_only_line ! 1), message (log_with_sha_only_line ! 1)])]) \<and>
   reconcile (commits_raw (tl log_without_message))
     = Inr \<lparr>columns = [''additions'', ''deletions'', ''filename'', ''sha'', ''timestamp'',
                        ''author'', ''message''], rows = []\<rparr> \<and>
   \<not> (\<exists>out out'. reconcile (commits_raw log_without_message) = Inr out \<and>
          reconcile (commits_raw (tl log_without_message)) = Inr out' \<and>
          map snd (rows out) = map snd (rows out'))"
proof -
  have out: "reconcile (commits_raw log_with_sha_only_line)
     = Inr \<lparr>columns = [''additions'', ''deletions'', ''filename'', ''sha'', ''timestamp'',
                        ''author'', ''message''],
            rows = [(3, [Some (Num 5), Some (Num 0), Some (Str ''g.txt''),
                         Some (Num 9), Some (Num 200), Some (Str ''B''), Some (Str ''y'')])]\<rparr>"
    by (simp add: log_with_sha_only_line_def pipeline_defs)
  have lines: "is_metadata (log_with_sha_only_line ! 0)" "is_metadata (log_with_sha_only_line ! 1)"
    "\<not> is_metadata (log_with_sha_only_line ! 2)" "\<not> is_statistic (log_with_sha_only_line ! 2)"
    "is_statistic (log_with_sha_only_line ! 3)"
    by (simp_all add: log_with_sha_only_line_def eval_nat_numeral is_metadata_def is_statistic_def
        metadata_line_def statistic_line_def)
  have sha: "sha (log_with_sha_only_line ! 1) = Some (Num 2)"
    by (simp add: log_with_sha_only_line_def metadata_line_def)
  have full: "reconcile (commits_raw log_without_message)
     = Inr \<lparr>columns = [''additions'', ''deletions'', ''filename'', ''sha'', ''timestamp'',
                        ''author'', ''message''],
            rows = [(2, [Some (Num 1), Some (Num 1), Some (Str ''readme.md''),
                         Some (Str ''ffa967c''), Some (Num 1492026060), Some (Str ''Antoine Rey''),
                         Some (Str ''Update Spring Boot'')])]\<rparr>"
    by (simp add: log_without_message_def pipeline_defs)
  have cut: "reconcile (commits_raw (tl log_without_message))
     = Inr \<lparr>columns = [''additions'', ''deletions'', ''filename'', ''sha'', ''timestamp'',
                        ''author'', ''message''], rows = []\<rparr>"
    by (simp add: log_without_message_def pipeline_defs)
  show ?thesis
    unfolding out full cut using lines sha by simp
qed

section \<open>The example log\<close>

text \<open>
  C6. On the log with the lines M(id=1, ts=100, author=A, msg="x"), S(+2, -1, "f.txt"),
  M(id=2, ts=200, author=B, msg="y"), S(+5, -0, "g.txt"), the reconciliation returns
  exactly the two records (2, 1, "f.txt", 1, 100, "A", "x") and
  (5, 0, "g.txt", 2, 200, "B", "y"), in that order; they keep the labels 1 and 3 of their
  statistic lines.
\<close>

theorem example_log:
  "reconcile (commits_raw
      [metadata_line (Num 1) (Num 100) (Str ''A'') (Str ''x''),
       statistic_line (Num 2) (Num 1) (Str ''f.txt''),
       metadata_line (Num 2) (Num 200) (Str ''B'') (Str ''y''),
       statistic_line (Num 5) (Num 0) (Str ''g.txt'')])
   = Inr \<lparr>columns = [''additions'', ''deletions'', ''filename'', ''sha'', ''timestamp'',
                      ''author'', ''message''],
          rows = [(1, [Some (Num 2), Some (Num 1), Some (Str ''f.txt''),
                       Some (Num 1), Some (Num 100), Some (Str ''A''), Some (Str ''x'')]),
                  (3, [Some (Num 5), Some (Num 0), Some (Str ''g.txt''),
                       Some (Num 2), Some (Num 200), Some (Str ''B''), Some (Str ''y'')])]\<rparr>"
  by (simp add: reconcile_def commits_def commits_raw_def getitem_def fillna_ffill_def join_def
      dropna_def fill_row_def cell_at_def stat_names_def meta_names_def stat_cells_def meta_cells_def
      metadata_line_def statistic_line_def)

section \<open>No failure on any table\<close>







section \<open>Forward fill is per column\<close>

lemma carried_column:
  assumes "length prev = 4" "c < 4" "prev ! c = None" "carried prev xs ! c \<noteq> None"
  shows "\<exists>j<length xs. meta_cells (xs ! j) ! c = carried prev xs ! c \<and>
           (\<forall>k. j < k \<and> k < length xs \<longrightarrow> meta_cells (xs ! k) ! c = None)"
  using assms(4)
proof (induction xs rule: rev_induct)
  case Nil
  with assms(3) show ?case by (simp add: carried_Nil)
next
  case (snoc x xs)
  have step: "carried prev (xs @ [x]) ! c =
      (case meta_cells x ! c of None \<Rightarrow> carried prev xs ! c | Some v \<Rightarrow> Some v)"
    unfolding carried_snoc using assms(1,2) by (simp add: fill_row_nth length_carried)
  show ?case
  proof (cases "meta_cells x ! c")
    case None
    with step have same: "carried prev (xs @ [x]) ! c = carried prev xs ! c" by simp
    with snoc.prems have "carried prev xs ! c \<noteq> None" by simp
    from snoc.IH[OF this] obtain j where j: "j < length xs"
      "meta_cells (xs ! j) ! c = carried prev xs ! c"
      "\<forall>k. j < k \<and> k < length xs \<longrightarrow> meta_cells (xs ! k) ! c = None"
      by blast
    have "\<forall>k. j < k \<and> k < length (xs @ [x]) \<longrightarrow> meta_cells ((xs @ [x]) ! k) ! c = None"
      using j(3) None by (auto simp: nth_append less_Suc_eq)
    with j(1,2) same show ?thesis
      by (intro exI[of _ j]) (simp add: nth_append)
  next
    case (Some v)
    with step show ?thesis
      by (intro exI[of _ "length xs"]) auto
  qed
qed

lemma record_column:
  assumes "(i, r) \<in> set (scan (replicate 4 None) 0 ls)" "c < 4"
  shows "\<exists>j\<le>i. meta_cells (ls ! j) ! c \<noteq> None \<and> r ! (3 + c) = meta_cells (ls ! j) ! c \<and>
           (\<forall>k. j < k \<and> k \<le> i \<longrightarrow> meta_cells (ls ! k) ! c = None)"
proof -
  let ?p = "carried (replicate 4 None) (take (Suc i) ls)"
  from assms(1) have i: "i < length ls" and r: "r = stat_cells (ls ! i) @ ?p"
    and full: "None \<notin> set r"
    unfolding scan_mem complete_set joined_def by auto
  have len: "length ?p = 4" by (simp add: length_carried)
  with assms(2) have "?p ! c \<in> set ?p" by simp
  moreover from full r have "None \<notin> set ?p" by simp
  ultimately have ne: "?p ! c \<noteq> None" by metis
  have "replicate 4 None ! c = (None :: 'a cell)" using assms(2) by simp
  from carried_column[OF _ assms(2) this ne] obtain j where j: "j < Suc i"
    "meta_cells (take (Suc i) ls ! j) ! c = ?p ! c"
    "\<forall>k. j < k \<and> k < length (take (Suc i) ls) \<longrightarrow> meta_cells (take (Suc i) ls ! k) ! c = None"
    using i by auto
  have "r ! (3 + c) = ?p ! c"
    unfolding r by (simp add: nth_append stat_cells_def)
  moreover have "\<forall>k. j < k \<and> k \<le> i \<longrightarrow> meta_cells (ls ! k) ! c = None"
    using j(3) i by auto
  ultimately show ?thesis
    using j(1,2) ne by (intro exI[of _ j]) simp
qed

lemma cell_at_meta:
  assumes "length r = 7"
  shows "cell_at (stat_names @ meta_names) r ''sha'' = r ! 3"
    and "cell_at (stat_names @ meta_names) r ''timestamp'' = r ! 4"
    and "cell_at (stat_names @ meta_names) r ''author'' = r ! 5"
    and "cell_at (stat_names @ meta_names) r ''message'' = r ! 6"
proof -
  from assms obtain a b c d e f g where "r = [a, b, c, d, e, f, g]"
    by (auto simp: eval_nat_numeral length_Suc_conv)
  then show "cell_at (stat_names @ meta_names) r ''sha'' = r ! 3"
    "cell_at (stat_names @ meta_names) r ''timestamp'' = r ! 4"
    "cell_at (stat_names @ meta_names) r ''author'' = r ! 5"
    "cell_at (stat_names @ meta_names) r ''message'' = r ! 6"
    by (simp_all add: cell_at_def stat_names_def meta_names_def)
qed

lemma record_field:
  assumes "(i, r) \<in> set (scan (replicate 4 None) 0 ls)" "(n, field) \<in> set meta_fields"
  shows "\<exists>j\<le>i. field (ls ! j) \<noteq> None \<and> cell_at (stat_names @ meta_names) r n = field (ls ! j) \<and>
           (\<forall>k. j < k \<and> k \<le> i \<longrightarrow> field (ls ! k) = None)"
proof -
  from assms(1) have "length r = 7"
    unfolding scan_mem by (simp add: length_joined)
  note at = cell_at_meta[OF this]
  from assms(2) consider "n = ''sha''" "field = sha" | "n = ''timestamp''" "field = timestamp"
    | "n = ''author''" "field = author" | "n = ''message''" "field = message"
    by (auto simp: meta_fields_def)
  then show ?thesis
  proof cases
    case 1
    with record_column[OF assms(1), of 0] at(1) show ?thesis by (simp add: meta_cells_def)
  next
    case 2
    with record_column[OF assms(1), of 1] at(2) show ?thesis by (simp add: meta_cells_def)
  next
    case 3
    with record_column[OF assms(1), of 2] at(3) show ?thesis by (simp add: meta_cells_def)
  next
    case 4
    with record_column[OF assms(1), of 3] at(4) show ?thesis by (simp add: meta_cells_def)
  qed
qed

text \<open>
  C10. The forward fill works on each column by itself. In every output record, each of
  the four meta data cells (sha, timestamp, author, message) is the value of that field
  in the nearest line at or before the record's line where the field is not null. So when
  a commit line has a null in one field, the records after it take that one field from an
  earlier line: in the log M(1, 100, A, "x"), M(2, 200, B, null), S(5, 0, "g.txt") the
  record has commit id 2, timestamp 200 and author B from the second line, and the message
  "x" from the first.
\<close>

theorem forward_fill_per_column:
  "(\<exists>out. reconcile (commits_raw ls) = Inr out \<and>
      (\<forall>(i, r)\<in>set (rows out). \<forall>(n, field)\<in>set meta_fields.
         \<exists>j\<le>i. field (ls ! j) \<noteq> None \<and> cell_at (columns out) r n = field (ls ! j) \<and>
                (\<forall>k. j < k \<and> k \<le> i \<longrightarrow> field (ls ! k) = None))) \<and>
   reconcile (commits_raw
      [metadata_line (Num 1) (Num 100) (Str ''A'') (Str ''x''),
       (metadata_line (Num 2) (Num 200) (Str ''B'') (Str ''y''))\<lparr>message := None\<rparr>,
       statistic_line (Num 5) (Num 0) (Str ''g.txt'')])
   = Inr \<lparr>columns = [''additions'', ''deletions'', ''filename'', ''sha'', ''timestamp'',
                      ''author'', ''message''],
          rows = [(2, [Some (Num 5), Some (Num 0), Some (Str ''g.txt''),
                       Some (Num 2), Some (Num 200), Some (Str ''B''), Some (Str ''x'')])]\<rparr>"
proof (rule conjI)
  show "\<exists>out. reconcile (commits_raw ls) = Inr out \<and>
      (\<forall>(i, r)\<in>set (rows out). \<forall>(n, field)\<in>set meta_fields.
         \<exists>j\<le>i. field (ls ! j) \<noteq> None \<and> cell_at (columns out) r n = field (ls ! j) \<and>
                (\<forall>k. j < k \<and> k \<le> i \<longrightarrow> field (ls ! k) = None))"
    unfolding reconcile_scan using record_field[of _ _ ls] by fastforce
next
  show "reconcile (commits_raw
      [metadata_line (Num 1) (Num 100) (Str ''A'') (Str ''x''),
       (metadata_line (Num 2) (Num 200) (Str ''B'') (Str ''y''))\<lparr>message := None\<rparr>,
       statistic_line (Num 5) (Num 0) (Str ''g.txt'')])
   = Inr \<lparr>columns = [''additions'', ''deletions'', ''filename'', ''sha'', ''timestamp'',
                      ''author'', ''message''],
          rows = [(2, [Some (Num 5), Some (Num 0), Some (Str ''g.txt''),
                       Some (Num 2), Some (Num 200), Some (Str ''B''), Some (Str ''x'')])]\<rparr>"
    by (simp add: reconcile_def commits_def commits_raw_def getitem_def fillna_ffill_def join_def
      dropna_def fill_row_def cell_at_def stat_names_def meta_names_def stat_cells_def meta_cells_def
      metadata_line_def statistic_line_def)
qed

text \<open>In that log the message of the record comes from line 0 and its commit id from
  line 1.\<close>

theorem forward_fill_per_column_witness:
  "\<exists>out r. reconcile (commits_raw
       [metadata_line (Num 1) (Num 100) (Str ''A'') (Str ''x''),
        (metadata_line (Num 2) (Num 200) (Str ''B'') (Str ''y''))\<lparr>message := None\<rparr>,
        statistic_line (Num 5) (Num 0) (Str ''g.txt'')]) = Inr out \<and>
     (2, r) \<in> set (rows out) \<and>
     (\<exists>j\<le>2. message ([metadata_line (Num 1) (Num 100) (Str ''A'') (Str ''x''),
        (metadata_line (Num 2) (Num 200) (Str ''B'') (Str ''y''))\<lparr>message := None\<rparr>,
        statistic_line (Num 5) (Num 0) (Str ''g.txt'')] ! j) \<noteq> None \<and>
        cell_at (columns out) r ''message'' = message ([metadata_line (Num 1) (Num 100) (Str ''A'') (Str ''x''),
        (metadata_line (Num 2) (Num 200) (Str ''B'') (Str ''y''))\<lparr>message := None\<rparr>,
        statistic_line (Num 5) (Num 0) (Str ''g.txt'')] ! j) \<and>
        (\<forall>k. j < k \<and> k \<le> 2 \<longrightarrow> message ([metadata_line (Num 1) (Num 100) (Str ''A'') (Str ''x''),
        (metadata_line (Num 2) (Num 200) (Str ''B'') (Str ''y''))\<lparr>message := None\<rparr>,
        statistic_line (Num 5) (Num 0) (Str ''g.txt'')] ! k) = None)) \<and>
     cell_at (columns out) r ''message'' = Some (Str ''x'') \<and>
     cell_at (columns out) r ''sha'' = Some (Num 2)"
proof -
  let ?L = "[metadata_line (Num 1) (Num 100) (Str ''A'') (Str ''x''),
        (metadata_line (Num 2) (Num 200) (Str ''B'') (Str ''y''))\<lparr>message := None\<rparr>,
        statistic_line (Num 5) (Num 0) (Str ''g.txt'')]"
  let ?r = "[Some (Num 5), Some (Num 0), Some (Str ''g.txt''),
             Some (Num 2), Some (Num 200), Some (Str ''B''), Some (Str ''x'')]"
  from forward_fill_per_column[of ?L] obtain out where
    out: "reconcile (commits_raw ?L) = Inr out"
    and col: "\<forall>(i, r)\<in>set (rows out). \<forall>(n, field)\<in>set meta_fields.
         \<exists>j\<le>i. field (?L ! j) \<noteq> None \<and> cell_at (columns out) r n = field (?L ! j) \<and>
                (\<forall>k. j < k \<and> k \<le> i \<longrightarrow> field (?L ! k) = None)"
    and ex: "reconcile (commits_raw ?L)
       = Inr \<lparr>columns = [''additions'', ''deletions'', ''filename'', ''sha'', ''timestamp'',
                      ''author'', ''message''], rows = [(2, ?r)]\<rparr>"
    by blast
  from out ex have mem: "(2, ?r) \<in> set (rows out)" by auto
  have fld: "(''message'', message) \<in> set (meta_fields :: (string \<times> (val line \<Rightarrow> val cell)) list)"
    by (simp add: meta_fields_def)
  from col mem fld have "\<exists>j\<le>2. message (?L ! j) \<noteq> None \<and>
        cell_at (columns out) ?r ''message'' = message (?L ! j) \<and>
        (\<forall>k. j < k \<and> k \<le> 2 \<longrightarrow> message (?L ! k) = None)"
    by fast
  moreover from out ex have "cell_at (columns out) ?r ''message'' = Some (Str ''x'')"
    "cell_at (columns out) ?r ''sha'' = Some (Num 2)"
    by (auto simp: cell_at_def)
  ultimately show ?thesis using out mem by blast
qed

section \<open>The representation of the timestamp\<close>

lemma numeric_column_in_range:
  assumes "\<forall>t. Some t \<in> set ts \<longrightarrow> \<bar>t\<bar> \<le> 2 ^ 53"
  shows "numeric_column wide ts =
           map (map_option (\<lambda>t. if None \<in> set ts then Flt (of_int t) else Num t)) ts"
proof -
  have "\<not> list_ex (\<lambda>x. case x of None \<Rightarrow> False | Some t \<Rightarrow> 2 ^ 53 < \<bar>t\<bar>) ts"
    using assms by (fastforce simp: list_ex_iff split: option.splits)
  then show ?thesis
    by (simp add: numeric_column_def)
qed

lemma log_as_read_column:
  "map timestamp log_as_read = numeric_column (\<lambda>xs. []) [Some 1498817227, None]"
  by (simp add: log_as_read_def numeric_column_def metadata_line_def statistic_line_def)

lemma log_as_read_out:
  "reconcile (commits_raw log_as_read)
     = Inr \<lparr>columns = [''additions'', ''deletions'', ''filename'', ''sha'', ''timestamp'',
                        ''author'', ''message''],
            rows = [(1, [Some (Str ''2''), Some (Str ''3''), Some (Str ''pom.xml''),
                         Some (Str ''101c9dc''), Some (Flt 1498817227), Some (Str ''Dave Syer''),
                         Some (Str ''Update Spring Boot and Thymeleaf versions'')])]\<rparr>"
  by (simp add: log_as_read_def pipeline_defs)

text \<open>
  C8. Let \<open>ts\<close> be the timestamp fields of the lines, integers of magnitude up to
  \<open>2 ^ 53\<close> or empty, and let the timestamp column of the table be what \<^verbatim>\<open>read_csv\<close>
  makes of them. Then in every output record the timestamp is the one of the nearest line
  at or before the record's line that has a timestamp, copied unchanged by the
  reconciliation. It is held as a \<^verbatim>\<open>float64\<close> of the same value as the integer number
  of seconds whenever some line of the table has an empty timestamp field, as every
  statistic line has, and as an integer only when no line has an empty timestamp.
\<close>

theorem timestamp_carried_as_read:
  assumes col: "map timestamp ls = numeric_column wide ts"
    and range: "\<forall>t. Some t \<in> set ts \<longrightarrow> \<bar>t\<bar> \<le> 2 ^ 53"
  shows "\<exists>out. reconcile (commits_raw ls) = Inr out \<and>
           (\<forall>(i, r)\<in>set (rows out).
              \<exists>j\<le>i. \<exists>t. ts ! j = Some t \<and> (\<forall>k. j < k \<and> k \<le> i \<longrightarrow> ts ! k = None) \<and>
                cell_at (columns out) r ''timestamp'' =
                  Some (if None \<in> set ts then Flt (of_int t) else Num t))"
proof -
  let ?f = "\<lambda>t. if None \<in> set ts then Flt (of_int t) else Num t"
  let ?out = "\<lparr>columns = stat_names @ meta_names, rows = scan (replicate 4 None) 0 ls\<rparr>"
  have cells: "map timestamp ls = map (map_option ?f) ts"
    using col numeric_column_in_range[OF range] by simp
  have len: "length ts = length ls"
    using arg_cong[OF cells, of length] by simp
  have nth: "timestamp (ls ! k) = map_option ?f (ts ! k)" if "k < length ls" for k
    using arg_cong[OF cells, of "\<lambda>xs. xs ! k"] that len by simp
  have "\<exists>j\<le>i. \<exists>t. ts ! j = Some t \<and> (\<forall>k. j < k \<and> k \<le> i \<longrightarrow> ts ! k = None) \<and>
          cell_at (columns ?out) r ''timestamp'' = Some (?f t)"
    if mem: "(i, r) \<in> set (rows ?out)" for i r
  proof -
    from mem have mem': "(i, r) \<in> set (scan (replicate 4 None) 0 ls)" by simp
    then have i: "i < length ls"
      unfolding scan_mem by simp
    have "(''timestamp'', timestamp) \<in> set (meta_fields :: (string \<times> (val line \<Rightarrow> val cell)) list)"
      by (simp add: meta_fields_def)
    from record_field[OF mem' this] obtain j where j: "j \<le> i" "timestamp (ls ! j) \<noteq> None"
      "cell_at (stat_names @ meta_names) r ''timestamp'' = timestamp (ls ! j)"
      "\<forall>k. j < k \<and> k \<le> i \<longrightarrow> timestamp (ls ! k) = None"
      by blast
    from j(1) i have jl: "j < length ls" by simp
    from j(2) nth[OF jl] obtain t where t: "ts ! j = Some t"
      by (cases "ts ! j") simp_all
    have between: "\<forall>k. j < k \<and> k \<le> i \<longrightarrow> ts ! k = None"
    proof (intro allI impI)
      fix k assume k: "j < k \<and> k \<le> i"
      with i have "k < length ls" by simp
      from nth[OF this] j(4) k show "ts ! k = None" by (cases "ts ! k") simp_all
    qed
    have "cell_at (columns ?out) r ''timestamp'' = Some (?f t)"
      using j(3) nth[OF jl] t by simp
    with j(1) t between show ?thesis by blast
  qed
  then have "\<forall>(i, r)\<in>set (rows ?out).
              \<exists>j\<le>i. \<exists>t. ts ! j = Some t \<and> (\<forall>k. j < k \<and> k \<le> i \<longrightarrow> ts ! k = None) \<and>
                cell_at (columns ?out) r ''timestamp'' = Some (?f t)"
    by blast
  with reconcile_scan[of ls] show ?thesis by blast
qed

text \<open>In the table of the first commit and its file the record's timestamp is the
  \<^verbatim>\<open>float64\<close> \<open>1498817227\<close>, carried from line 0.\<close>

theorem timestamp_carried_as_read_witness:
  "\<exists>out r. reconcile (commits_raw log_as_read) = Inr out \<and> rows out = [(1, r)] \<and>
     (\<exists>j\<le>1. \<exists>t. [Some 1498817227, None] ! j = Some t \<and>
        (\<forall>k. j < k \<and> k \<le> 1 \<longrightarrow> [Some (1498817227 :: int), None] ! k = None) \<and>
        cell_at (columns out) r ''timestamp'' = Some (Flt (of_int t))) \<and>
     cell_at (columns out) r ''timestamp'' = Some (Flt 1498817227)"
proof -
  let ?r = "[Some (Str ''2''), Some (Str ''3''), Some (Str ''pom.xml''),
             Some (Str ''101c9dc''), Some (Flt 1498817227), Some (Str ''Dave Syer''),
             Some (Str ''Update Spring Boot and Thymeleaf versions'')]"
  have range: "\<forall>t. Some t \<in> set [Some 1498817227, None] \<longrightarrow> \<bar>t\<bar> \<le> (2 ^ 53 :: int)"
    by simp
  from timestamp_carried_as_read[OF log_as_read_column range] obtain out where
    out: "reconcile (commits_raw log_as_read) = Inr out"
    and carried: "\<forall>(i, r)\<in>set (rows out).
              \<exists>j\<le>i. \<exists>t. [Some 1498817227, None] ! j = Some t \<and>
                (\<forall>k. j < k \<and> k \<le> i \<longrightarrow> [Some (1498817227 :: int), None] ! k = None) \<and>
                cell_at (columns out) r ''timestamp'' =
                  Some (if None \<in> set [Some (1498817227 :: int), None] then Flt (of_int t) else Num t)"
    by (elim exE conjE)
  from out have eq: "out = \<lparr>columns = [''additions'', ''deletions'', ''filename'', ''sha'', ''timestamp'',
                        ''author'', ''message''], rows = [(1, ?r)]\<rparr>"
    unfolding log_as_read_out by simp
  then have rows: "rows out = [(1, ?r)]"
    by simp
  then have mem: "(1, ?r) \<in> set (rows out)" by simp
  have nearest: "\<exists>j\<le>1. \<exists>t. [Some 1498817227, None] ! j = Some t \<and>
        (\<forall>k. j < k \<and> k \<le> 1 \<longrightarrow> [Some (1498817227 :: int), None] ! k = None) \<and>
        cell_at (columns out) ?r ''timestamp'' = Some (Flt (of_int t))"
    using bspec[OF carried mem] by simp
  have cell: "cell_at (columns out) ?r ''timestamp'' = Some (Flt 1498817227)"
    unfolding eq by (simp add: cell_at_def)
  show ?thesis
    by (intro exI[of _ out] exI[of _ ?r] conjI) (fact out rows nearest cell)+
qed

text \<open>
  So the timestamp of an output record need not be held as an integer: in that table the
  timestamp column has an empty field in the statistic line, the column is
  \<^verbatim>\<open>float64\<close>, and the record's timestamp is no integer cell.
\<close>

theorem timestamp_carried_as_read_counterexample:
  "map timestamp log_as_read = numeric_column (\<lambda>xs. []) [Some 1498817227, None] \<and>
   reconcile (commits_raw log_as_read)
     = Inr \<lparr>columns = [''additions'', ''deletions'', ''filename'', ''sha'', ''timestamp'',
                        ''author'', ''message''],
            rows = [(1, [Some (Str ''2''), Some (Str ''3''), Some (Str ''pom.xml''),
                         Some (Str ''101c9dc''), Some (Flt 1498817227), Some (Str ''Dave Syer''),
                         Some (Str ''Update Spring Boot and Thymeleaf versions'')])]\<rparr> \<and>
   \<not> (\<exists>out. reconcile (commits_raw log_as_read) = Inr out \<and>
          (\<forall>(i, r)\<in>set (rows out). \<exists>n. cell_at (columns out) r ''timestamp'' = Some (Num n)))"
proof -
  have neg: "\<not> (\<exists>out. reconcile (commits_raw log_as_read) = Inr out \<and>
          (\<forall>(i, r)\<in>set (rows out). \<exists>n. cell_at (columns out) r ''timestamp'' = Some (Num n)))"
    unfolding log_as_read_out by (simp add: cell_at_def)
  show ?thesis
    by (intro conjI) (fact log_as_read_column log_as_read_out neg)+
qed

end
